theory Spec2Isabelle
  imports Main "HOL-Library.Word"
begin

section \<open>The firmware's view of its collaborators\<close>

text \<open>
  \<^verbatim>\<open>main/app_main.c\<close> is the whole program. Everything it calls (NVS, the Wi-Fi driver,
  the provisioning manager, FreeRTOS, GPIO, the QR renderer) is an external library. The
  model records every external call in a trace, in program order, and takes what each
  call returns from an environment that the theorems quantify over.
\<close>

subsection \<open>Error codes\<close>

text \<open>
  \<^verbatim>\<open>esp_err_t\<close>. The program compares return values with three named codes only;
  \<open>ESP_ERR_OTHER n\<close> stands for a code \<open>n\<close> that is none of the three.
\<close>

datatype esp_err_t =
    ESP_OK
  | ESP_ERR_NVS_NO_FREE_PAGES
  | ESP_ERR_NVS_NEW_VERSION_FOUND
  | ESP_ERR_OTHER int

subsection \<open>Constants of the source\<close>

definition PROV_QR_VERSION :: string where
  "PROV_QR_VERSION = ''v1''"

definition PROV_TRANSPORT_BLE :: string where
  "PROV_TRANSPORT_BLE = ''ble''"

definition BUTTON_GPIO :: "32 word" where
  "BUTTON_GPIO = 32"

definition DEBOUNCE_MS :: nat where
  "DEBOUNCE_MS = 50"

definition pop :: string where
  "pop = ''abcd1234''"

subsection \<open>External calls\<close>

datatype arg = Str string | Num int

datatype call =
    Nvs_flash_init
  | Nvs_flash_erase
  | Esp_netif_init
  | Esp_event_loop_create_default
  | XEventGroupCreate
  | Esp_event_handler_register string
  | Esp_netif_create_default_wifi_sta
  | Esp_wifi_init
  | Esp_wifi_get_mac
  | Gpio_config
  | XQueueCreate nat
  | XTaskCreate string nat
  | Gpio_install_isr_service
  | Gpio_isr_handler_add "32 word"
  | Wifi_prov_mgr_is_provisioned
  | Wifi_prov_mgr_init
  | Wifi_prov_mgr_start_provisioning string string
  | Wifi_prov_mgr_stop_provisioning
  | Wifi_prov_mgr_reset_provisioning
  | Wifi_prov_mgr_deinit
  | Esp_qrcode_generate string
  | Esp_wifi_disconnect
  | Esp_wifi_connect
  | Esp_wifi_set_mode
  | Esp_wifi_start
  | VTaskDelay_ms nat
  | Gpio_get_level "32 word"
  | Esp_logi string "arg list"

text \<open>
  A FreeRTOS queue: \<^verbatim>\<open>xQueueCreate(n, size)\<close> gives a FIFO with room for \<open>n\<close> items.
\<close>

record queue =
  capacity :: nat
  items :: "32 word list"

text \<open>
  The environment. \<open>ret_of e k\<close> is the code returned by the \<open>k\<close>-th external call of
  the run (\<open>k\<close> counts trace entries from 0), \<open>level_of e k\<close> the pin level read when
  that call is \<^verbatim>\<open>gpio_get_level\<close>, \<open>provisioned_of e k\<close> the flag written through the
  out-parameter when it is \<^verbatim>\<open>wifi_prov_mgr_is_provisioned\<close>, and \<open>sta_mac e\<close> the bytes
  \<^verbatim>\<open>esp_wifi_get_mac\<close> copies out.
\<close>

record env =
  ret_of :: "nat \<Rightarrow> esp_err_t"
  level_of :: "nat \<Rightarrow> int"
  provisioned_of :: "nat \<Rightarrow> bool"
  sta_mac :: "8 word list"

text \<open>
  The program's state: the trace of external calls so far and the two file-scope
  variables the code reads back, \<^verbatim>\<open>button_queue\<close> (\<open>None\<close> is \<^verbatim>\<open>NULL\<close>) and
  \<^verbatim>\<open>service_name\<close>.
\<close>

record state =
  trace :: "call list"
  button_queue :: "queue option"
  service_name :: string

text \<open>
  Why a run stopped: \<^verbatim>\<open>ESP_ERROR_CHECK\<close> saw a code other than \<^verbatim>\<open>ESP_OK\<close>, or FreeRTOS
  asserted on a \<^verbatim>\<open>NULL\<close> queue handle.
\<close>

datatype fault = Error_check esp_err_t | Assert_failed

datatype outcome = Continue state | Abort fault state

definition ext_call :: "env \<Rightarrow> call \<Rightarrow> state \<Rightarrow> esp_err_t \<times> state" where
  "ext_call e c s = (ret_of e (length (trace s)), s\<lparr>trace := trace s @ [c]\<rparr>)"

text \<open>A call whose return value the source does not look at.\<close>

definition do_call :: "env \<Rightarrow> call \<Rightarrow> state \<Rightarrow> state" where
  "do_call e c s = snd (ext_call e c s)"

text \<open>
  \<^verbatim>\<open>ESP_ERROR_CHECK(x)\<close>: evaluate \<open>x\<close>; when the code is not \<^verbatim>\<open>ESP_OK\<close>, print it and
  \<^verbatim>\<open>abort()\<close>.
\<close>

definition ESP_ERROR_CHECK :: "esp_err_t \<times> state \<Rightarrow> outcome" where
  "ESP_ERROR_CHECK rs =
     (if fst rs = ESP_OK then Continue (snd rs) else Abort (Error_check (fst rs)) (snd rs))"

definition ESP_LOGI :: "env \<Rightarrow> string \<Rightarrow> arg list \<Rightarrow> state \<Rightarrow> state" where
  "ESP_LOGI e fmt args s = do_call e (Esp_logi fmt args) s"

fun state_of :: "outcome \<Rightarrow> state" where
  "state_of (Continue s) = s"
| "state_of (Abort f s) = s"

fun aborted :: "outcome \<Rightarrow> bool" where
  "aborted (Continue s) = False"
| "aborted (Abort f s) = True"

definition and_then :: "outcome \<Rightarrow> (state \<Rightarrow> outcome) \<Rightarrow> outcome" where
  "and_then r k = (case r of Abort f s \<Rightarrow> Abort f s | Continue s \<Rightarrow> k s)"

section \<open>Formatting\<close>

text \<open>
  \<^verbatim>\<open>snprintf(buf, max, ...)\<close> stores at most \<open>max - 1\<close> characters of the formatted text
  and a terminating NUL.
\<close>

definition snprintf :: "nat \<Rightarrow> string \<Rightarrow> string" where
  "snprintf maxlen formatted = take (maxlen - 1) formatted"

definition hex_digit :: "nat \<Rightarrow> char" where
  "hex_digit d = ''0123456789ABCDEF'' ! d"

text \<open>\<^verbatim>\<open>%X\<close>: the digits of an unsigned value in base 16, most significant first.\<close>

fun fmt_X :: "nat \<Rightarrow> string" where
  "fmt_X n = (if n < 16 then [hex_digit n] else fmt_X (n div 16) @ [hex_digit (n mod 16)])"

text \<open>\<^verbatim>\<open>%02X\<close>: the same, padded on the left with zeros to at least two characters.\<close>

definition fmt_02X :: "nat \<Rightarrow> string" where
  "fmt_02X n = replicate (2 - length (fmt_X n)) (CHR ''0'') @ fmt_X n"

section \<open>Service Identity Generator\<close>

text \<open>
  \<^verbatim>\<open>get_device_service_name(name, max)\<close>: the bytes 3, 4 and 5 of the station MAC,
  promoted to unsigned values, go through \<^verbatim>\<open>"PROV_%02X%02X%02X"\<close>. The local array has
  6 cells, which the driver fills; what \<^verbatim>\<open>esp_wifi_get_mac\<close> returns is not looked at.
\<close>

definition service_name_text :: "8 word list \<Rightarrow> string" where
  "service_name_text mac =
     ''PROV_'' @ fmt_02X (unat (mac ! 3)) @ fmt_02X (unat (mac ! 4)) @ fmt_02X (unat (mac ! 5))"

definition get_device_service_name :: "env \<Rightarrow> nat \<Rightarrow> state \<Rightarrow> state" where
  "get_device_service_name e maxlen s =
     (let s1 = do_call e Esp_wifi_get_mac s;
          mac = sta_mac e
      in s1\<lparr>service_name := snprintf maxlen (service_name_text mac)\<rparr>)"

section \<open>Provisioning Payload Encoder and Lifecycle Controller\<close>

text \<open>The format string of the QR payload with its four \<^verbatim>\<open>%s\<close> filled in.\<close>

definition payload_text :: "string \<Rightarrow> string \<Rightarrow> string \<Rightarrow> string \<Rightarrow> string" where
  \<open>payload_text ver name p transport =
     ''{"ver":"'' @ ver @ ''","name":"'' @ name @ ''","pop":"'' @ p @
     ''","transport":"'' @ transport @ ''"}''\<close>

definition qr_payload :: "string \<Rightarrow> string" where
  "qr_payload name = snprintf 150 (payload_text PROV_QR_VERSION name pop PROV_TRANSPORT_BLE)"

definition start_provisioning :: "env \<Rightarrow> state \<Rightarrow> outcome" where
  "start_provisioning e s =
     (case ESP_ERROR_CHECK (ext_call e Wifi_prov_mgr_init s) of
        Abort f s1 \<Rightarrow> Abort f s1
      | Continue s1 \<Rightarrow>
          (case ESP_ERROR_CHECK
                  (ext_call e (Wifi_prov_mgr_start_provisioning pop (service_name s1)) s1) of
             Abort f s2 \<Rightarrow> Abort f s2
           | Continue s2 \<Rightarrow>
               (let payload = qr_payload (service_name s2);
                    s3 = ESP_LOGI e ''Scan this QR code for provisioning:'' [] s2
                in Continue (do_call e (Esp_qrcode_generate payload) s3))))"

definition stop_provisioning :: "env \<Rightarrow> state \<Rightarrow> state" where
  "stop_provisioning e s =
     (let s1 = do_call e Wifi_prov_mgr_stop_provisioning s;
          s2 = do_call e Wifi_prov_mgr_reset_provisioning s1
      in do_call e Wifi_prov_mgr_deinit s2)"

section \<open>Debounced Button Source\<close>

text \<open>
  FreeRTOS, as documented: \<^verbatim>\<open>xQueueSendFromISR\<close> copies the item into the queue when a
  slot is free and returns \<^verbatim>\<open>errQUEUE_FULL\<close> without waiting otherwise;
  \<^verbatim>\<open>xQueueReceive\<close> removes the oldest item, and with \<^verbatim>\<open>portMAX_DELAY\<close> the caller
  stays blocked while there is none (\<open>None\<close> here).
\<close>

definition xQueueSendFromISR :: "queue \<Rightarrow> 32 word \<Rightarrow> queue" where
  "xQueueSendFromISR q item =
     (if length (items q) < capacity q then q\<lparr>items := items q @ [item]\<rparr> else q)"

definition xQueueReceive :: "queue \<Rightarrow> (32 word \<times> queue) option" where
  "xQueueReceive q = (case items q of [] \<Rightarrow> None | x # xs \<Rightarrow> Some (x, q\<lparr>items := xs\<rparr>))"

text \<open>The handler discards what \<^verbatim>\<open>xQueueSendFromISR\<close> returns.\<close>

definition button_isr_handler :: "32 word \<Rightarrow> state \<Rightarrow> outcome" where
  "button_isr_handler gpio_num s =
     (case button_queue s of
        None \<Rightarrow> Abort Assert_failed s
      | Some q \<Rightarrow> Continue (s\<lparr>button_queue := Some (xQueueSendFromISR q gpio_num)\<rparr>))"

text \<open>
  One pass of the body of \<^verbatim>\<open>while (1)\<close> in \<^verbatim>\<open>button_task\<close>. With an empty queue the task
  is still blocked in \<^verbatim>\<open>xQueueReceive\<close> and nothing has happened.
\<close>

definition button_task_pass :: "env \<Rightarrow> state \<Rightarrow> outcome" where
  "button_task_pass e s =
     (case button_queue s of
        None \<Rightarrow> Abort Assert_failed s
      | Some q \<Rightarrow>
          (case xQueueReceive q of
             None \<Rightarrow> Continue s
           | Some (io_num, q') \<Rightarrow>
               (let s1 = s\<lparr>button_queue := Some q'\<rparr>;
                    s2 = do_call e (VTaskDelay_ms DEBOUNCE_MS) s1;
                    level = level_of e (length (trace s2));
                    s3 = do_call e (Gpio_get_level io_num) s2
                in if level \<noteq> 0 then
                     (let s4 = ESP_LOGI e ''Triggering reprovisioning'' [] s3;
                          s5 = do_call e Esp_wifi_disconnect s4;
                          s6 = stop_provisioning e s5
                      in start_provisioning e s6)
                   else Continue s3)))"

text \<open>The loop itself never ends; \<open>n\<close> is the number of passes looked at.\<close>

fun button_task :: "env \<Rightarrow> nat \<Rightarrow> state \<Rightarrow> outcome" where
  "button_task e 0 s = Continue s"
| "button_task e (Suc n) s = and_then (button_task_pass e s) (button_task e n)"

section \<open>Event Router\<close>

text \<open>
  The \<open>(event_base, event_id)\<close> pairs \<^verbatim>\<open>event_handler\<close> tells apart, each with the part of
  \<^verbatim>\<open>event_data\<close> the handler reads; every other pair is \<open>Other_event\<close>.
\<close>

datatype event =
    WIFI_PROV_START
  | WIFI_PROV_CRED_RECV string string
  | WIFI_PROV_CRED_SUCCESS
  | WIFI_PROV_END
  | WIFI_EVENT_STA_START
  | IP_EVENT_STA_GOT_IP "8 word" "8 word" "8 word" "8 word"
  | Other_event

fun event_handler :: "env \<Rightarrow> event \<Rightarrow> state \<Rightarrow> state" where
  "event_handler e WIFI_PROV_START s = ESP_LOGI e ''Provisioning started'' [] s"
| "event_handler e (WIFI_PROV_CRED_RECV ssid password) s =
     ESP_LOGI e ''Received SSID: %s, Password: %s'' [Str ssid, Str password] s"
| "event_handler e WIFI_PROV_CRED_SUCCESS s = ESP_LOGI e ''Provisioning successful'' [] s"
| "event_handler e WIFI_PROV_END s = ESP_LOGI e ''Provisioning stopped'' [] s"
| "event_handler e WIFI_EVENT_STA_START s = do_call e Esp_wifi_connect s"
| "event_handler e (IP_EVENT_STA_GOT_IP a b c d) s =
     ESP_LOGI e ''Connected with IP: %d.%d.%d.%d''
       [Num (uint a), Num (uint b), Num (uint c), Num (uint d)] s"
| "event_handler e Other_event s = s"

section \<open>Boot\<close>

text \<open>\<^verbatim>\<open>app_main\<close>, lines 117 to 121: the persistent store.\<close>

definition app_main_nvs :: "env \<Rightarrow> state \<Rightarrow> outcome" where
  "app_main_nvs e s =
     (let ret = fst (ext_call e Nvs_flash_init s);
          s1 = snd (ext_call e Nvs_flash_init s)
      in if ret = ESP_ERR_NVS_NO_FREE_PAGES \<or> ret = ESP_ERR_NVS_NEW_VERSION_FOUND then
           and_then (ESP_ERROR_CHECK (ext_call e Nvs_flash_erase s1))
             (\<lambda>s2. ESP_ERROR_CHECK (ext_call e Nvs_flash_init s2))
         else Continue s1)"

text \<open>
  Lines 124 to 154: network interface, event loop, handlers, Wi-Fi driver, service name,
  button pin, queue, worker task and interrupt handler. \<^verbatim>\<open>xQueueCreate\<close> is taken to
  return a queue; the source does not test the handle.
\<close>

definition app_main_setup :: "env \<Rightarrow> state \<Rightarrow> outcome" where
  "app_main_setup e s =
     (let s1 = do_call e Esp_netif_init s;
          s2 = do_call e Esp_event_loop_create_default s1;
          s3 = do_call e XEventGroupCreate s2;
          s4 = do_call e (Esp_event_handler_register ''WIFI_PROV_EVENT'') s3;
          s5 = do_call e (Esp_event_handler_register ''WIFI_EVENT'') s4;
          s6 = do_call e (Esp_event_handler_register ''IP_EVENT'') s5;
          s7 = do_call e Esp_netif_create_default_wifi_sta s6
      in and_then (ESP_ERROR_CHECK (ext_call e Esp_wifi_init s7))
           (\<lambda>s8.
              let s9 = get_device_service_name e 12 s8;
                  s10 = do_call e Gpio_config s9;
                  s11 = (do_call e (XQueueCreate 5) s10)
                          \<lparr>button_queue := Some \<lparr>capacity = 5, items = []\<rparr>\<rparr>;
                  s12 = do_call e (XTaskCreate ''button_task'' 10) s11;
                  s13 = do_call e Gpio_install_isr_service s12
              in Continue (do_call e (Gpio_isr_handler_add BUTTON_GPIO) s13)))"

text \<open>Lines 157 to 165: is the device provisioned already?\<close>

definition app_main_check :: "env \<Rightarrow> state \<Rightarrow> outcome" where
  "app_main_check e s =
     (let ret = fst (ext_call e Wifi_prov_mgr_is_provisioned s);
          provisioned = provisioned_of e (length (trace s));
          s1 = snd (ext_call e Wifi_prov_mgr_is_provisioned s)
      in if ret \<noteq> ESP_OK \<or> \<not> provisioned then
           start_provisioning e (ESP_LOGI e ''Starting initial provisioning'' [] s1)
         else
           (let s2 = ESP_LOGI e ''Already provisioned, connecting...'' [] s1;
                s3 = do_call e Esp_wifi_set_mode s2
            in Continue (do_call e Esp_wifi_start s3)))"

text \<open>\<^verbatim>\<open>app_main\<close> up to its closing loop, which only sleeps.\<close>

definition app_main :: "env \<Rightarrow> state \<Rightarrow> outcome" where
  "app_main e s = and_then (and_then (app_main_nvs e s) (app_main_setup e)) (app_main_check e)"

definition boot_state :: state where
  "boot_state = \<lparr>trace = [], button_queue = None, service_name = []\<rparr>"

section \<open>The running firmware\<close>

text \<open>
  After boot the firmware reacts: to a rising edge on the button pin (the interrupt
  handler, registered with \<^verbatim>\<open>BUTTON_GPIO\<close> as its argument), to the worker task being
  scheduled for one pass, to an event delivered to \<^verbatim>\<open>event_handler\<close>, and to the main
  task waking up in its closing loop. Each reaction runs to its end before the next, and
  the boot check of \<^verbatim>\<open>app_main\<close> has finished before the first: the worker is the only
  task that handles triggers, one queued identifier at a time.
\<close>

datatype input = Button_edge | Button_task_runs | Notification event | Main_loop_wakes

fun step :: "env \<Rightarrow> input \<Rightarrow> state \<Rightarrow> outcome" where
  "step e Button_edge s = button_isr_handler BUTTON_GPIO s"
| "step e Button_task_runs s = button_task_pass e s"
| "step e (Notification ev) s = Continue (event_handler e ev s)"
| "step e Main_loop_wakes s = Continue (do_call e (VTaskDelay_ms 1000) s)"

fun run :: "env \<Rightarrow> input list \<Rightarrow> state \<Rightarrow> outcome" where
  "run e [] s = Continue s"
| "run e (i # ins) s = and_then (step e i s) (run e ins)"

definition firmware :: "env \<Rightarrow> input list \<Rightarrow> outcome" where
  "firmware e ins = and_then (app_main e boot_state) (run e ins)"

section \<open>Observers and sample environments\<close>





text \<open>The calls into the network stack and the provisioning subsystem.\<close>

fun subsystem_call :: "call \<Rightarrow> bool" where
  "subsystem_call Wifi_prov_mgr_is_provisioned = True"
| "subsystem_call Wifi_prov_mgr_init = True"
| "subsystem_call (Wifi_prov_mgr_start_provisioning p n) = True"
| "subsystem_call Wifi_prov_mgr_stop_provisioning = True"
| "subsystem_call Wifi_prov_mgr_reset_provisioning = True"
| "subsystem_call Wifi_prov_mgr_deinit = True"
| "subsystem_call Esp_wifi_init = True"
| "subsystem_call Esp_wifi_get_mac = True"
| "subsystem_call Esp_wifi_disconnect = True"
| "subsystem_call Esp_wifi_connect = True"
| "subsystem_call Esp_wifi_set_mode = True"
| "subsystem_call Esp_wifi_start = True"
| "subsystem_call c = False"



text \<open>The calls of \<^verbatim>\<open>app_main\<close> from line 124 up to \<^verbatim>\<open>esp_wifi_init\<close>.\<close>

definition setup_calls :: "call list" where
  "setup_calls =
     [Esp_netif_init, Esp_event_loop_create_default, XEventGroupCreate,
      Esp_event_handler_register ''WIFI_PROV_EVENT'', Esp_event_handler_register ''WIFI_EVENT'',
      Esp_event_handler_register ''IP_EVENT'', Esp_netif_create_default_wifi_sta, Esp_wifi_init]"

text \<open>The calls a piece of the program added to the trace it started from.\<close>

definition calls_since :: "state \<Rightarrow> outcome \<Rightarrow> call list" where
  "calls_since s r = drop (length (trace s)) (trace (state_of r))"






text \<open>
  Environments to run the program in: every call succeeds, the pin reads high and nothing
  is provisioned; \<open>failing_at k r\<close> is the same except that call number \<open>k\<close> returns
  \<open>r\<close>; \<open>already_provisioned\<close> has credentials stored; in \<open>query_fails\<close> the
  provisioned-status query, call number 15 of a boot, returns \<^verbatim>\<open>ESP_FAIL\<close>.
\<close>

definition all_ok :: env where
  "all_ok = \<lparr>ret_of = (\<lambda>k. ESP_OK), level_of = (\<lambda>k. 1), provisioned_of = (\<lambda>k. False),
             sta_mac = [0x24, 0x6F, 0x28, 0xAB, 0x0C, 0xEF]\<rparr>"

definition failing_at :: "nat \<Rightarrow> esp_err_t \<Rightarrow> env" where
  "failing_at k r = all_ok\<lparr>ret_of := (\<lambda>i. if i = k then r else ESP_OK)\<rparr>"

definition already_provisioned :: env where
  "already_provisioned = all_ok\<lparr>provisioned_of := (\<lambda>k. True)\<rparr>"

definition query_fails :: env where
  "query_fails =
     already_provisioned\<lparr>ret_of := (\<lambda>k. if k = 15 then ESP_ERR_OTHER (- 1) else ESP_OK)\<rparr>"


section \<open>Reading the payload back\<close>



definition unescaped :: "char \<Rightarrow> bool" where
  "unescaped c = ((0x20 :: nat) \<le> of_char c \<and> c \<noteq> CHR 0x22 \<and> c \<noteq> CHR 0x5C)"







section \<open>Properties\<close>

subsection \<open>What each function adds to the trace\<close>

lemma do_call_simps:
  "trace (do_call e c s) = trace s @ [c]"
  "button_queue (do_call e c s) = button_queue s"
  "service_name (do_call e c s) = service_name s"
  by (simp_all add: do_call_def ext_call_def)

lemma do_call_eq: "do_call e c s = s\<lparr>trace := trace s @ [c]\<rparr>"
  by (simp add: do_call_def ext_call_def)

lemma stop_provisioning_eq:
  "stop_provisioning e s =
     s\<lparr>trace := trace s @ [Wifi_prov_mgr_stop_provisioning, Wifi_prov_mgr_reset_provisioning,
                            Wifi_prov_mgr_deinit]\<rparr>"
  by (simp add: stop_provisioning_def do_call_eq)

lemma start_provisioning_eq:
  "start_provisioning e s =
     (if ret_of e (length (trace s)) \<noteq> ESP_OK then
        Abort (Error_check (ret_of e (length (trace s))))
          (s\<lparr>trace := trace s @ [Wifi_prov_mgr_init]\<rparr>)
      else if ret_of e (Suc (length (trace s))) \<noteq> ESP_OK then
        Abort (Error_check (ret_of e (Suc (length (trace s)))))
          (s\<lparr>trace := trace s @ [Wifi_prov_mgr_init,
                                 Wifi_prov_mgr_start_provisioning pop (service_name s)]\<rparr>)
      else
        Continue
          (s\<lparr>trace := trace s @ [Wifi_prov_mgr_init,
                                 Wifi_prov_mgr_start_provisioning pop (service_name s),
                                 Esp_logi ''Scan this QR code for provisioning:'' [],
                                 Esp_qrcode_generate (qr_payload (service_name s))]\<rparr>))"
  by (simp add: start_provisioning_def ESP_ERROR_CHECK_def ext_call_def ESP_LOGI_def do_call_eq)

lemma button_task_pass_eq:
  assumes "button_queue s = Some q" and "items q = io # rest"
  shows "button_task_pass e s =
     (if level_of e (Suc (length (trace s))) \<noteq> 0 then
        start_provisioning e
          (s\<lparr>button_queue := Some (q\<lparr>items := rest\<rparr>),
             trace := trace s @ [VTaskDelay_ms DEBOUNCE_MS, Gpio_get_level io,
                                 Esp_logi ''Triggering reprovisioning'' [], Esp_wifi_disconnect,
                                 Wifi_prov_mgr_stop_provisioning,
                                 Wifi_prov_mgr_reset_provisioning, Wifi_prov_mgr_deinit]\<rparr>)
      else
        Continue
          (s\<lparr>button_queue := Some (q\<lparr>items := rest\<rparr>),
             trace := trace s @ [VTaskDelay_ms DEBOUNCE_MS, Gpio_get_level io]\<rparr>))"
  using assms
  by (simp add: button_task_pass_def xQueueReceive_def ESP_LOGI_def do_call_eq
      stop_provisioning_eq)




lemma button_task_pass_calls:
  assumes "button_queue s = Some q" and "items q = io # rest"
  shows "calls_since s (button_task_pass e s) =
     (if level_of e (Suc (length (trace s))) = 0 then
        [VTaskDelay_ms DEBOUNCE_MS, Gpio_get_level io]
      else
        [VTaskDelay_ms DEBOUNCE_MS, Gpio_get_level io, Esp_logi ''Triggering reprovisioning'' [],
         Esp_wifi_disconnect, Wifi_prov_mgr_stop_provisioning, Wifi_prov_mgr_reset_provisioning,
         Wifi_prov_mgr_deinit, Wifi_prov_mgr_init] @
        (if ret_of e (length (trace s) + 7) \<noteq> ESP_OK then []
         else Wifi_prov_mgr_start_provisioning pop (service_name s) #
           (if ret_of e (length (trace s) + 8) \<noteq> ESP_OK then []
            else [Esp_logi ''Scan this QR code for provisioning:'' [],
                  Esp_qrcode_generate (qr_payload (service_name s))])))"
proof -
  have idx: "n + 7 = Suc (Suc (Suc (Suc (Suc (Suc (Suc n))))))"
    "n + 8 = Suc (Suc (Suc (Suc (Suc (Suc (Suc (Suc n)))))))" for n :: nat
    by simp_all
  show ?thesis
    by (simp add: button_task_pass_eq [OF assms] start_provisioning_eq calls_since_def idx)
qed

lemma app_main_nvs_eq:
  "app_main_nvs e s =
     (if ret_of e (length (trace s)) = ESP_ERR_NVS_NO_FREE_PAGES
         \<or> ret_of e (length (trace s)) = ESP_ERR_NVS_NEW_VERSION_FOUND then
        (if ret_of e (Suc (length (trace s))) \<noteq> ESP_OK then
           Abort (Error_check (ret_of e (Suc (length (trace s)))))
             (s\<lparr>trace := trace s @ [Nvs_flash_init, Nvs_flash_erase]\<rparr>)
         else if ret_of e (Suc (Suc (length (trace s)))) \<noteq> ESP_OK then
           Abort (Error_check (ret_of e (Suc (Suc (length (trace s))))))
             (s\<lparr>trace := trace s @ [Nvs_flash_init, Nvs_flash_erase, Nvs_flash_init]\<rparr>)
         else Continue (s\<lparr>trace := trace s @ [Nvs_flash_init, Nvs_flash_erase, Nvs_flash_init]\<rparr>))
      else Continue (s\<lparr>trace := trace s @ [Nvs_flash_init]\<rparr>))"
  by (simp add: app_main_nvs_def and_then_def ESP_ERROR_CHECK_def ext_call_def)



lemma app_main_setup_eq:
  "app_main_setup e s =
     (if ret_of e (length (trace s) + 7) \<noteq> ESP_OK then
        Abort (Error_check (ret_of e (length (trace s) + 7)))
          (s\<lparr>trace := trace s @ setup_calls\<rparr>)
      else
        Continue
          (s\<lparr>trace := trace s @ setup_calls @
                     [Esp_wifi_get_mac, Gpio_config, XQueueCreate 5, XTaskCreate ''button_task'' 10,
                      Gpio_install_isr_service, Gpio_isr_handler_add BUTTON_GPIO],
             button_queue := Some \<lparr>capacity = 5, items = []\<rparr>,
             service_name := snprintf 12 (service_name_text (sta_mac e))\<rparr>))"
proof -
  have idx: "n + 7 = Suc (Suc (Suc (Suc (Suc (Suc (Suc n))))))" for n :: nat
    by simp
  show ?thesis
    by (simp add: app_main_setup_def and_then_def ESP_ERROR_CHECK_def ext_call_def do_call_eq
        get_device_service_name_def setup_calls_def idx)
qed

lemma app_main_check_eq:
  "app_main_check e s =
     (if ret_of e (length (trace s)) \<noteq> ESP_OK \<or> \<not> provisioned_of e (length (trace s)) then
        start_provisioning e
          (s\<lparr>trace := trace s @ [Wifi_prov_mgr_is_provisioned,
                                 Esp_logi ''Starting initial provisioning'' []]\<rparr>)
      else
        Continue
          (s\<lparr>trace := trace s @ [Wifi_prov_mgr_is_provisioned,
                                 Esp_logi ''Already provisioned, connecting...'' [],
                                 Esp_wifi_set_mode, Esp_wifi_start]\<rparr>))"
  by (simp add: app_main_check_def ext_call_def do_call_eq ESP_LOGI_def)

lemmas run_defs =
  firmware_def app_main_def and_then_def app_main_nvs_eq app_main_setup_eq app_main_check_eq
  start_provisioning_eq button_isr_handler_def xQueueSendFromISR_def button_task_pass_def
  xQueueReceive_def ESP_LOGI_def do_call_eq stop_provisioning_eq boot_state_def setup_calls_def
  failing_at_def all_ok_def already_provisioned_def query_fails_def calls_since_def snprintf_def
  service_name_text_def fmt_02X_def hex_digit_def

lemma not_aborted_eq: "\<not> aborted r \<Longrightarrow> r = Continue (state_of r)"
  by (cases r) simp_all

text \<open>\<open>n\<close> passes of the worker's loop are \<open>n\<close> reactions of the running firmware.\<close>

lemma button_task_run: "button_task e n s = run e (replicate n Button_task_runs) s"
proof (induction n arbitrary: s)
  case 0
  show ?case by simp
next
  case (Suc n)
  show ?case
    by (cases "button_task_pass e s") (simp_all add: and_then_def Suc.IH)
qed

lemma fmt_X_byte:
  assumes "n < 256"
  shows "fmt_02X n = [hex_digit (n div 16), hex_digit (n mod 16)]"
proof (cases "n < 16")
  case True
  then show ?thesis by (simp add: fmt_02X_def hex_digit_def)
next
  case False
  with assms have "n div 16 < 16" by simp
  with False show ?thesis by (simp add: fmt_02X_def)
qed

lemma hex_digit_upper:
  assumes "d < 16"
  shows "hex_digit d \<in> set ''0123456789ABCDEF''"
proof -
  have "d < length ''0123456789ABCDEF''" using assms by simp
  then show ?thesis unfolding hex_digit_def by (rule nth_mem)
qed

lemma service_name_text_bytes:
  "service_name_text mac =
     ''PROV_'' @ concat (map (\<lambda>b. [hex_digit (unat b div 16), hex_digit (unat b mod 16)])
                           [mac ! 3, mac ! 4, mac ! 5])"
proof -
  have b: "unat b < 256" for b :: "8 word"
    using unsigned_less [of b] by simp
  show ?thesis by (simp add: service_name_text_def fmt_X_byte [OF b])
qed

subsection \<open>Lifecycle\<close>











text \<open>
  C2, as the claim states it, fails: \<^verbatim>\<open>ESP_ERROR_CHECK\<close> guards \<^verbatim>\<open>wifi_prov_mgr_init\<close>.
  When init returns an error on an accepted press (call number 28 of this run, code
  \<^verbatim>\<open>ESP_ERR_INVALID_STATE\<close>), the sequence ends at init and the firmware aborts.
\<close>

theorem reprovision_call_order_counterexample:
  "level_of (failing_at 28 (ESP_ERR_OTHER 259)) 22 \<noteq> 0
   \<and> filter subsystem_call
        (calls_since (state_of (firmware (failing_at 28 (ESP_ERR_OTHER 259)) [Button_edge]))
           (firmware (failing_at 28 (ESP_ERR_OTHER 259)) [Button_edge, Button_task_runs])) =
       [Esp_wifi_disconnect, Wifi_prov_mgr_stop_provisioning, Wifi_prov_mgr_reset_provisioning,
        Wifi_prov_mgr_deinit, Wifi_prov_mgr_init]
   \<and> aborted (firmware (failing_at 28 (ESP_ERR_OTHER 259)) [Button_edge, Button_task_runs])"
  by (simp add: run_defs)

text \<open>
  C2, amended. An accepted press (pin level not zero after the settle delay) calls, in
  this order and with no other network or provisioning call in between, disconnect, stop,
  reset, deinit and init, and then start when init returned \<^verbatim>\<open>ESP_OK\<close>. The pass aborts
  exactly when init or start returns another code.
\<close>

theorem reprovision_call_order:
  assumes "button_queue s = Some q" and "items q = io # rest"
    and "level_of e (Suc (length (trace s))) \<noteq> 0"
  shows "filter subsystem_call (calls_since s (button_task_pass e s)) =
           [Esp_wifi_disconnect, Wifi_prov_mgr_stop_provisioning,
            Wifi_prov_mgr_reset_provisioning, Wifi_prov_mgr_deinit, Wifi_prov_mgr_init] @
           (if ret_of e (length (trace s) + 7) = ESP_OK
            then [Wifi_prov_mgr_start_provisioning pop (service_name s)] else [])
         \<and> (aborted (button_task_pass e s) \<longleftrightarrow>
              ret_of e (length (trace s) + 7) \<noteq> ESP_OK \<or> ret_of e (length (trace s) + 8) \<noteq> ESP_OK)"
proof -
  have idx: "n + 7 = Suc (Suc (Suc (Suc (Suc (Suc (Suc n))))))"
    "n + 8 = Suc (Suc (Suc (Suc (Suc (Suc (Suc (Suc n)))))))" for n :: nat
    by simp_all
  have calls: "filter subsystem_call (calls_since s (button_task_pass e s)) =
           [Esp_wifi_disconnect, Wifi_prov_mgr_stop_provisioning,
            Wifi_prov_mgr_reset_provisioning, Wifi_prov_mgr_deinit, Wifi_prov_mgr_init] @
           (if ret_of e (length (trace s) + 7) = ESP_OK
            then [Wifi_prov_mgr_start_provisioning pop (service_name s)] else [])"
    using assms(3) by (simp add: button_task_pass_calls [OF assms(1,2)])
  have stops: "aborted (button_task_pass e s) \<longleftrightarrow>
      ret_of e (length (trace s) + 7) \<noteq> ESP_OK \<or> ret_of e (length (trace s) + 8) \<noteq> ESP_OK"
    using assms(3) by (simp add: button_task_pass_eq [OF assms(1,2)] start_provisioning_eq idx)
  from calls stops show ?thesis
    by (rule conjI)
qed

theorem reprovision_call_order_witness:
  "button_queue (state_of (firmware all_ok [Button_edge])) =
     Some \<lparr>capacity = 5, items = [BUTTON_GPIO]\<rparr>
   \<and> level_of all_ok (Suc (length (trace (state_of (firmware all_ok [Button_edge]))))) \<noteq> 0
   \<and> filter subsystem_call
        (calls_since (state_of (firmware all_ok [Button_edge]))
           (button_task_pass all_ok (state_of (firmware all_ok [Button_edge])))) =
       [Esp_wifi_disconnect, Wifi_prov_mgr_stop_provisioning, Wifi_prov_mgr_reset_provisioning,
        Wifi_prov_mgr_deinit, Wifi_prov_mgr_init,
        Wifi_prov_mgr_start_provisioning pop ''PROV_AB0CEF'']"
proof -
  have q: "button_queue (state_of (firmware all_ok [Button_edge])) =
             Some \<lparr>capacity = 5, items = [BUTTON_GPIO]\<rparr>"
    by (simp add: run_defs)
  have i: "items \<lparr>capacity = 5, items = [BUTTON_GPIO]\<rparr> = BUTTON_GPIO # []"
    by simp
  have l: "level_of all_ok (Suc (length (trace (state_of (firmware all_ok [Button_edge]))))) \<noteq> 0"
    by (simp add: all_ok_def)
  have n: "service_name (state_of (firmware all_ok [Button_edge])) = ''PROV_AB0CEF''"
    by (simp add: run_defs)
  have r: "ret_of all_ok k = ESP_OK" for k
    by (simp add: all_ok_def)
  from reprovision_call_order [OF q i l, of ] q l show ?thesis
    by (simp add: n r)
qed



subsection \<open>Failures\<close>

text \<open>
  C9. When the provisioned-status query returns an error, \<^verbatim>\<open>app_main\<close> goes on with
  \<^verbatim>\<open>start_provisioning\<close>, whatever flag came back: the next calls are the log line and
  \<^verbatim>\<open>wifi_prov_mgr_init\<close>, and with init and start succeeding the boot is not aborted.
\<close>

theorem query_error_starts_provisioning:
  assumes "and_then (app_main_nvs e s0) (app_main_setup e) = Continue s"
    and "ret_of e (length (trace s)) \<noteq> ESP_OK"
  shows "app_main e s0 =
           start_provisioning e
             (s\<lparr>trace := trace s @ [Wifi_prov_mgr_is_provisioned,
                                    Esp_logi ''Starting initial provisioning'' []]\<rparr>)
         \<and> take 3 (calls_since s (app_main e s0)) =
             [Wifi_prov_mgr_is_provisioned, Esp_logi ''Starting initial provisioning'' [],
              Wifi_prov_mgr_init]
         \<and> (ret_of e (length (trace s) + 2) = ESP_OK \<and> ret_of e (length (trace s) + 3) = ESP_OK
              \<longrightarrow> \<not> aborted (app_main e s0)
                \<and> calls_since s (app_main e s0) =
                    [Wifi_prov_mgr_is_provisioned, Esp_logi ''Starting initial provisioning'' [],
                     Wifi_prov_mgr_init, Wifi_prov_mgr_start_provisioning pop (service_name s),
                     Esp_logi ''Scan this QR code for provisioning:'' [],
                     Esp_qrcode_generate (qr_payload (service_name s))])"
proof -
  have idx: "n + 2 = Suc (Suc n)" "n + 3 = Suc (Suc (Suc n))" for n :: nat
    by simp_all
  have main: "app_main e s0 = app_main_check e s"
    using assms(1) by (simp add: app_main_def and_then_def)
  show ?thesis
    using assms(2)
    by (simp add: main app_main_check_eq start_provisioning_eq calls_since_def idx)
qed

theorem query_error_starts_provisioning_witness:
  "\<not> aborted (and_then (app_main_nvs query_fails boot_state) (app_main_setup query_fails))
   \<and> ret_of query_fails (length (trace (state_of
         (and_then (app_main_nvs query_fails boot_state) (app_main_setup query_fails))))) \<noteq> ESP_OK
   \<and> provisioned_of query_fails 15
   \<and> \<not> aborted (app_main query_fails boot_state)
   \<and> filter subsystem_call (drop 15 (trace (state_of (app_main query_fails boot_state)))) =
       [Wifi_prov_mgr_is_provisioned, Wifi_prov_mgr_init,
        Wifi_prov_mgr_start_provisioning pop ''PROV_AB0CEF'']"
proof -
  let ?s = "state_of (and_then (app_main_nvs query_fails boot_state) (app_main_setup query_fails))"
  have ok: "\<not> aborted (and_then (app_main_nvs query_fails boot_state) (app_main_setup query_fails))"
    by (simp add: run_defs)
  have bad: "ret_of query_fails (length (trace ?s)) \<noteq> ESP_OK"
    by (simp add: run_defs)
  have len: "length (trace ?s) = 15" and name: "service_name ?s = ''PROV_AB0CEF''"
    by (simp_all add: run_defs)
  have rets: "ret_of query_fails 17 = ESP_OK" "ret_of query_fails 18 = ESP_OK"
    "provisioned_of query_fails 15"
    by (simp_all add: query_fails_def already_provisioned_def all_ok_def)
  from query_error_starts_provisioning [OF not_aborted_eq [OF ok] bad, THEN conjunct2] ok bad rets
  show ?thesis
    by (simp add: len name calls_since_def)
qed

text \<open>
  C6, as the claim states it, fails: \<^verbatim>\<open>stop_provisioning\<close> looks at no return value.
  When \<^verbatim>\<open>wifi_prov_mgr_reset_provisioning\<close> returns \<^verbatim>\<open>ESP_FAIL\<close> on a press (call
  number 26 of this run), the firmware goes on to deinit, init and start.
\<close>

theorem teardown_results_discarded_counterexample:
  "ret_of (failing_at 26 (ESP_ERR_OTHER (- 1))) 26 \<noteq> ESP_OK
   \<and> trace (state_of (firmware (failing_at 26 (ESP_ERR_OTHER (- 1)))
                        [Button_edge, Button_task_runs])) ! 26 = Wifi_prov_mgr_reset_provisioning
   \<and> \<not> aborted (firmware (failing_at 26 (ESP_ERR_OTHER (- 1))) [Button_edge, Button_task_runs])
   \<and> filter subsystem_call
        (drop 27 (trace (state_of (firmware (failing_at 26 (ESP_ERR_OTHER (- 1)))
                                    [Button_edge, Button_task_runs])))) =
       [Wifi_prov_mgr_deinit, Wifi_prov_mgr_init,
        Wifi_prov_mgr_start_provisioning pop ''PROV_AB0CEF'']"
  by (simp add: run_defs)

text \<open>
  C6, amended. A code other than \<^verbatim>\<open>ESP_OK\<close> from \<^verbatim>\<open>wifi_prov_mgr_init\<close> or from
  \<^verbatim>\<open>wifi_prov_mgr_start_provisioning\<close> aborts with that code, and nothing is called
  after. \<^verbatim>\<open>stop_provisioning\<close> calls stop, reset and deinit and goes on whatever they
  return: its result does not depend on the environment.
\<close>

theorem provisioning_call_failures:
  assumes "r \<noteq> ESP_OK"
  shows "(ret_of e (length (trace s)) = r \<longrightarrow>
            start_provisioning e s =
              Abort (Error_check r) (s\<lparr>trace := trace s @ [Wifi_prov_mgr_init]\<rparr>))
         \<and> (ret_of e (length (trace s)) = ESP_OK \<and> ret_of e (length (trace s) + 1) = r \<longrightarrow>
              start_provisioning e s =
                Abort (Error_check r)
                  (s\<lparr>trace := trace s @ [Wifi_prov_mgr_init,
                       Wifi_prov_mgr_start_provisioning pop (service_name s)]\<rparr>))
         \<and> stop_provisioning e s =
             s\<lparr>trace := trace s @ [Wifi_prov_mgr_stop_provisioning,
                  Wifi_prov_mgr_reset_provisioning, Wifi_prov_mgr_deinit]\<rparr>
         \<and> stop_provisioning e' s = stop_provisioning e s"
  using assms by (simp add: start_provisioning_eq stop_provisioning_eq)

theorem provisioning_call_failures_witness:
  "ESP_ERR_OTHER 259 \<noteq> ESP_OK
   \<and> ret_of (failing_at 0 (ESP_ERR_OTHER 259)) (length (trace boot_state)) = ESP_ERR_OTHER 259
   \<and> start_provisioning (failing_at 0 (ESP_ERR_OTHER 259)) boot_state =
       Abort (Error_check (ESP_ERR_OTHER 259)) (boot_state\<lparr>trace := [Wifi_prov_mgr_init]\<rparr>)
   \<and> ret_of (failing_at 1 (ESP_ERR_OTHER 259)) (length (trace boot_state)) = ESP_OK
   \<and> ret_of (failing_at 1 (ESP_ERR_OTHER 259)) (length (trace boot_state) + 1) = ESP_ERR_OTHER 259
   \<and> start_provisioning (failing_at 1 (ESP_ERR_OTHER 259)) boot_state =
       Abort (Error_check (ESP_ERR_OTHER 259))
         (boot_state\<lparr>trace := [Wifi_prov_mgr_init, Wifi_prov_mgr_start_provisioning pop []]\<rparr>)"
proof -
  have r: "ESP_ERR_OTHER 259 \<noteq> ESP_OK"
    by simp
  from provisioning_call_failures [OF r, of "failing_at 0 (ESP_ERR_OTHER 259)" boot_state]
    provisioning_call_failures [OF r, of "failing_at 1 (ESP_ERR_OTHER 259)" boot_state]
  show ?thesis
    by (simp add: failing_at_def all_ok_def boot_state_def)
qed

lemma nvs_recovery:
  assumes "ret_of e (length (trace s)) = ESP_ERR_NVS_NO_FREE_PAGES
           \<or> ret_of e (length (trace s)) = ESP_ERR_NVS_NEW_VERSION_FOUND"
  shows "take 2 (calls_since s (app_main_nvs e s)) = [Nvs_flash_init, Nvs_flash_erase]"
    and "aborted (app_main_nvs e s) \<longleftrightarrow>
           ret_of e (length (trace s) + 1) \<noteq> ESP_OK \<or> ret_of e (length (trace s) + 2) \<noteq> ESP_OK"
    and "ret_of e (length (trace s) + 1) = ESP_OK \<Longrightarrow>
           calls_since s (app_main_nvs e s) = [Nvs_flash_init, Nvs_flash_erase, Nvs_flash_init]"
  using assms by (auto simp: app_main_nvs_eq calls_since_def)

lemma nvs_no_recovery:
  assumes "ret_of e (length (trace s)) \<noteq> ESP_ERR_NVS_NO_FREE_PAGES"
    and "ret_of e (length (trace s)) \<noteq> ESP_ERR_NVS_NEW_VERSION_FOUND"
  shows "app_main_nvs e s = Continue (s\<lparr>trace := trace s @ [Nvs_flash_init]\<rparr>)"
  using assms by (simp add: app_main_nvs_eq)

text \<open>
  C5. The two recoverable conditions are handled as the claim says (\<open>nvs_recovery\<close>).
  Any other code from the first \<^verbatim>\<open>nvs_flash_init\<close> is not looked at: with
  \<^verbatim>\<open>ESP_ERR_NOT_FOUND\<close> (0x105) the boot goes on to \<^verbatim>\<open>esp_netif_init\<close> and is not
  aborted.
\<close>

theorem nvs_other_failure_goes_on:
  "app_main_nvs (failing_at 0 (ESP_ERR_OTHER 261)) boot_state =
     Continue (boot_state\<lparr>trace := [Nvs_flash_init]\<rparr>)
   \<and> \<not> aborted (app_main (failing_at 0 (ESP_ERR_OTHER 261)) boot_state)
   \<and> take 3 (trace (state_of (app_main (failing_at 0 (ESP_ERR_OTHER 261)) boot_state))) =
       [Nvs_flash_init, Esp_netif_init, Esp_event_loop_create_default]"
  by (simp add: run_defs)

subsection \<open>Button\<close>
















subsection \<open>Service name\<close>

text \<open>
  C7. For every 6-byte station MAC the generator writes \<open>PROV_\<close> followed by the two
  upper-case hex digits of each of the last three bytes: 11 characters, which fill the
  12-byte buffer with their NUL. The name depends on the MAC alone, so it is the same
  whenever the generator is invoked.
\<close>

theorem service_name_from_mac:
  assumes "length (sta_mac e) = 6"
  shows "service_name (get_device_service_name e 12 s) =
           ''PROV_'' @ concat (map (\<lambda>b. [hex_digit (unat b div 16), hex_digit (unat b mod 16)])
                                 (drop 3 (sta_mac e)))
         \<and> length (service_name (get_device_service_name e 12 s)) = 11
         \<and> (\<forall>c \<in> set (drop 5 (service_name (get_device_service_name e 12 s))).
               c \<in> set ''0123456789ABCDEF'')
         \<and> service_name (get_device_service_name e 12 s') =
             service_name (get_device_service_name e 12 s)"
proof -
  obtain b0 b1 b2 b3 b4 b5 where mac: "sta_mac e = [b0, b1, b2, b3, b4, b5]"
    using assms by (auto simp: length_Suc_conv eval_nat_numeral)
  have byte: "unat b < 256" for b :: "8 word"
    using unsigned_less [of b] by simp
  have lt: "unat b div 16 < 16" "unat b mod 16 < 16" for b :: "8 word"
    using byte [of b] by simp_all
  have name: "service_name (get_device_service_name e 12 t) =
      ''PROV_'' @ [hex_digit (unat b3 div 16), hex_digit (unat b3 mod 16),
                   hex_digit (unat b4 div 16), hex_digit (unat b4 mod 16),
                   hex_digit (unat b5 div 16), hex_digit (unat b5 mod 16)]" for t
    by (simp add: get_device_service_name_def do_call_def ext_call_def snprintf_def
        service_name_text_bytes mac)
  show ?thesis
    using lt hex_digit_upper by (simp add: name mac)
qed

theorem service_name_from_mac_witness:
  "length (sta_mac all_ok) = 6
   \<and> service_name (get_device_service_name all_ok 12 boot_state) = ''PROV_AB0CEF''"
  using service_name_from_mac [of all_ok boot_state boot_state]
  by (simp add: all_ok_def hex_digit_def)

subsection \<open>Payload\<close>






text \<open>
  The names the generator writes are made of characters that JSON takes as they are.
\<close>

lemma generated_name_plain:
  assumes "length (sta_mac e) = 6"
  shows "\<forall>c \<in> set (service_name (get_device_service_name e 12 s)). unescaped c"
proof -
  obtain b0 b1 b2 b3 b4 b5 where mac: "sta_mac e = [b0, b1, b2, b3, b4, b5]"
    using assms by (auto simp: length_Suc_conv eval_nat_numeral)
  have byte: "unat b < 256" for b :: "8 word"
    using unsigned_less [of b] by simp
  have digit: "unescaped (hex_digit d)" if "d < 16" for d
  proof -
    have "hex_digit d \<in> set ''0123456789ABCDEF''"
      using that by (rule hex_digit_upper)
    then show ?thesis by (auto simp: unescaped_def)
  qed
  have lt: "unat b div 16 < 16" "unat b mod 16 < 16" for b :: "8 word"
    using byte [of b] by simp_all
  have name: "service_name (get_device_service_name e 12 s) =
      ''PROV_'' @ [hex_digit (unat b3 div 16), hex_digit (unat b3 mod 16),
                   hex_digit (unat b4 div 16), hex_digit (unat b4 mod 16),
                   hex_digit (unat b5 div 16), hex_digit (unat b5 mod 16)]"
    by (simp add: get_device_service_name_def do_call_def ext_call_def snprintf_def
        service_name_text_bytes mac)
  show ?thesis
    unfolding name using digit [OF lt(1)] digit [OF lt(2)] by (simp add: unescaped_def)
qed




end
